theory Spec2Isabelle
  imports Main "HOL-Library.Sublist"
begin

unbundle bit_operations_syntax

section \<open>JavaScript values\<close>

text \<open>
  The values the cache stores and returns. Numbers are integers (timestamps and
  time-to-live values are milliseconds); \<open>NaN\<close>, the infinities and fractions are not
  part of the model. An object is an association list read by its first matching key.
\<close>

datatype jsval =
    JUndefined
  | JNull
  | JBool bool
  | JNum int
  | JStr string
  | JArr "jsval list"
  | JObj "(string \<times> jsval) list"

datatype error = TypeError | SyntaxError

type_synonym 'a res = "error + 'a"

subsection \<open>Coercion to a number, as the relational operators apply it\<close>

definition is_ws :: "char \<Rightarrow> bool" where
  "is_ws ch = (ch \<in> set [CHR '' '', CHR 0x09, CHR 0x0A, CHR 0x0B, CHR 0x0C, CHR 0x0D])"

definition trim :: "string \<Rightarrow> string" where
  "trim s = rev (dropWhile is_ws (rev (dropWhile is_ws s)))"

definition is_digit :: "char \<Rightarrow> bool" where
  "is_digit ch = (48 \<le> (of_char ch :: nat) \<and> (of_char ch :: nat) \<le> 57)"

definition decimal :: "string \<Rightarrow> int option" where
  "decimal s = (if s \<noteq> [] \<and> list_all is_digit s
                then Some (foldl (\<lambda>a ch. 10 * a + (of_char ch - 48)) 0 s) else None)"

text \<open>
  The host's StringToNumber, restricted to decimal integer literals with an optional
  sign and surrounding white space; the empty string is 0 and every other string is
  taken as \<open>NaN\<close>, which is \<open>None\<close>.
\<close>

definition string_to_number :: "string \<Rightarrow> int option" where
  "string_to_number s =
     (case trim s of
        [] \<Rightarrow> Some 0
      | ch # r \<Rightarrow>
          if ch = CHR ''-'' then map_option uminus (decimal r)
          else if ch = CHR ''+'' then decimal r
          else decimal (ch # r))"

fun to_number :: "jsval \<Rightarrow> int option" where
  "to_number JUndefined = None"
| "to_number JNull = Some 0"
| "to_number (JBool b) = Some (if b then 1 else 0)"
| "to_number (JNum n) = Some n"
| "to_number (JStr s) = string_to_number s"
| "to_number (JArr []) = Some 0"
| "to_number (JArr [JUndefined]) = Some 0"
| "to_number (JArr [JNull]) = Some 0"
| "to_number (JArr [JBool b]) = None"
| "to_number (JArr [JNum n]) = Some n"
| "to_number (JArr [JStr s]) = string_to_number s"
| "to_number (JArr [JArr ys]) = to_number (JArr ys)"
| "to_number (JArr [JObj kvs]) = None"
| "to_number (JArr (x # y # zs)) = None"
| "to_number (JObj kvs) = None"

text \<open>\<open>x < n\<close> and \<open>x > n\<close> with a number on the right: false when \<open>x\<close> coerces to \<open>NaN\<close>.\<close>

definition js_lt :: "jsval \<Rightarrow> int \<Rightarrow> bool" where
  "js_lt x n = (case to_number x of None \<Rightarrow> False | Some a \<Rightarrow> a < n)"

definition js_gt :: "jsval \<Rightarrow> int \<Rightarrow> bool" where
  "js_gt x n = (case to_number x of None \<Rightarrow> False | Some a \<Rightarrow> a > n)"

subsection \<open>Property access\<close>

text \<open>
  \<open>obj.t\<close> and \<open>obj.v\<close>: reading a property of \<open>undefined\<close> or \<open>null\<close> throws; the
  two names the cache reads are own properties of plain objects only.
\<close>

fun get_prop :: "jsval \<Rightarrow> string \<Rightarrow> jsval res" where
  "get_prop JUndefined k = Inl TypeError"
| "get_prop JNull k = Inl TypeError"
| "get_prop (JObj kvs) k = Inr (case map_of kvs k of None \<Rightarrow> JUndefined | Some v \<Rightarrow> v)"
| "get_prop x k = Inr JUndefined"

text \<open>\<open>Object.hasOwnProperty.call(obj, 't')\<close>.\<close>

fun hasOwnProperty :: "jsval \<Rightarrow> string \<Rightarrow> bool res" where
  "hasOwnProperty JUndefined k = Inl TypeError"
| "hasOwnProperty JNull k = Inl TypeError"
| "hasOwnProperty (JObj kvs) k = Inr (k \<in> fst ` set kvs)"
| "hasOwnProperty x k = Inr False"

subsection \<open>JSON\<close>

text \<open>
  A string held by a text backend is known by what \<open>JSON.parse\<close> makes of it: the value
  it denotes, or a syntax error (then the raw text is kept). \<open>json_of x\<close> is the value
  denoted by \<open>JSON.stringify(x)\<close>: a property whose value is \<open>undefined\<close> is dropped and
  an \<open>undefined\<close> array element becomes \<open>null\<close>.
\<close>

datatype payload = Json jsval | Malformed string

primrec json_of :: "jsval \<Rightarrow> jsval" where
  "json_of JUndefined = JUndefined"
| "json_of JNull = JNull"
| "json_of (JBool b) = JBool b"
| "json_of (JNum n) = JNum n"
| "json_of (JStr s) = JStr s"
| "json_of (JArr xs) = JArr (map (\<lambda>x. if x = JUndefined then JNull else x) (map json_of xs))"
| "json_of (JObj kvs) =
     JObj (filter (\<lambda>p. snd p \<noteq> JUndefined) (map (map_prod id json_of) kvs))"

definition JSON_stringify :: "jsval \<Rightarrow> payload" where
  "JSON_stringify x = Json (json_of x)"

text \<open>\<open>JSON.parse(obj)\<close> of what a text backend returned; \<open>null\<close> reads as the text "null".\<close>

fun JSON_parse :: "payload option \<Rightarrow> jsval res" where
  "JSON_parse None = Inr JNull"
| "JSON_parse (Some (Json v)) = Inr v"
| "JSON_parse (Some (Malformed s)) = Inl SyntaxError"

text \<open>A value that JSON carries unchanged: no \<open>undefined\<close> inside.\<close>

fun serializable :: "jsval \<Rightarrow> bool" where
  "serializable JUndefined = False"
| "serializable (JArr xs) = list_all serializable xs"
| "serializable (JObj kvs) = list_all (\<lambda>p. serializable (snd p)) kvs"
| "serializable v = True"

section \<open>md5\<close>

text \<open>
  \<open>md5\<close> is imported from the package \<open>tiny-js-md5\<close>: the MD5 digest of RFC 1321 over
  the bytes of the key, printed as 32 lower-case hexadecimal digits. 32-bit words are
  integers with the wrap-around written out.
\<close>

definition md5_K :: "int list" where
  "md5_K = [3614090360, 3905402710, 606105819, 3250441966, 4118548399, 1200080426,
     2821735955, 4249261313, 1770035416, 2336552879, 4294925233, 2304563134, 1804603682,
     4254626195, 2792965006, 1236535329, 4129170786, 3225465664, 643717713, 3921069994,
     3593408605, 38016083, 3634488961, 3889429448, 568446438, 3275163606, 4107603335,
     1163531501, 2850285829, 4243563512, 1735328473, 2368359562, 4294588738, 2272392833,
     1839030562, 4259657740, 2763975236, 1272893353, 4139469664, 3200236656, 681279174,
     3936430074, 3572445317, 76029189, 3654602809, 3873151461, 530742520, 3299628645,
     4096336452, 1126891415, 2878612391, 4237533241, 1700485571, 2399980690, 4293915773,
     2240044497, 1873313359, 4264355552, 2734768916, 1309151649, 4149444226, 3174756917,
     718787259, 3951481745]"

definition md5_S :: "nat list" where
  "md5_S = [7, 12, 17, 22, 7, 12, 17, 22, 7, 12, 17, 22, 7, 12, 17, 22,
            5, 9, 14, 20, 5, 9, 14, 20, 5, 9, 14, 20, 5, 9, 14, 20,
            4, 11, 16, 23, 4, 11, 16, 23, 4, 11, 16, 23, 4, 11, 16, 23,
            6, 10, 15, 21, 6, 10, 15, 21, 6, 10, 15, 21, 6, 10, 15, 21]"

definition add32 :: "int \<Rightarrow> int \<Rightarrow> int" where
  "add32 x y = (x + y) mod 4294967296"

definition not32 :: "int \<Rightarrow> int" where
  "not32 x = 4294967295 - x"

definition rotl32 :: "int \<Rightarrow> nat \<Rightarrow> int" where
  "rotl32 x n = (x * 2 ^ n) mod 4294967296 + x div 2 ^ (32 - n)"

definition md5_step ::
  "int list \<Rightarrow> nat \<Rightarrow> int \<times> int \<times> int \<times> int \<Rightarrow> int \<times> int \<times> int \<times> int" where
  "md5_step m i st = (case st of (a, b, c, d) \<Rightarrow>
     let f = (if i < 16 then (b AND c) OR (not32 b AND d)
              else if i < 32 then (d AND b) OR (not32 d AND c)
              else if i < 48 then b XOR c XOR d
              else c XOR (b OR not32 d));
         g = (if i < 16 then i
              else if i < 32 then (5 * i + 1) mod 16
              else if i < 48 then (3 * i + 5) mod 16
              else (7 * i) mod 16);
         f' = add32 (add32 (add32 f a) (md5_K ! i)) (m ! g)
     in (d, add32 b (rotl32 f' (md5_S ! i)), b, c))"

definition md5_block ::
  "int \<times> int \<times> int \<times> int \<Rightarrow> int list \<Rightarrow> int \<times> int \<times> int \<times> int" where
  "md5_block h m = (case h of (a0, b0, c0, d0) \<Rightarrow>
     case fold (md5_step m) [0..<64] h of (a, b, c, d) \<Rightarrow>
       (add32 a0 a, add32 b0 b, add32 c0 c, add32 d0 d))"

fun le_words :: "int list \<Rightarrow> int list" where
  "le_words (b0 # b1 # b2 # b3 # bs) =
     (b0 + 256 * b1 + 65536 * b2 + 16777216 * b3) # le_words bs"
| "le_words bs = []"

fun chunks :: "nat \<Rightarrow> int list \<Rightarrow> int list list" where
  "chunks 0 ws = []"
| "chunks (Suc n) ws = take 16 ws # chunks n (drop 16 ws)"

definition le_bytes :: "nat \<Rightarrow> int \<Rightarrow> int list" where
  "le_bytes n x = map (\<lambda>i. (x div 256 ^ i) mod 256) [0..<n]"

definition md5_pad :: "int list \<Rightarrow> int list" where
  "md5_pad bs = bs @ [128] @ replicate ((119 - length bs mod 64) mod 64) 0
                  @ le_bytes 8 ((8 * int (length bs)) mod 18446744073709551616)"

definition hex_digit :: "int \<Rightarrow> char" where
  "hex_digit n = ''0123456789abcdef'' ! nat n"

definition hex_byte :: "int \<Rightarrow> string" where
  "hex_byte b = [hex_digit (b div 16), hex_digit (b mod 16)]"

definition md5_digest :: "int \<times> int \<times> int \<times> int \<Rightarrow> string" where
  "md5_digest h = (case h of (a, b, c, d) \<Rightarrow>
     concat (map hex_byte (concat (map (le_bytes 4) [a, b, c, d]))))"

definition md5 :: "string \<Rightarrow> string" where
  "md5 s = (let ws = le_words (md5_pad (map of_char s))
            in md5_digest (fold (\<lambda>m h. md5_block h m) (chunks (length ws div 16) ws)
                             (1732584193, 4023233417, 2562383102, 271733878)))"

section \<open>The storage media\<close>

text \<open>
  Modelled from the spec: \<open>cacheTypeEnumerate\<close> (module \<open>cache-type-enumerate\<close>, not
  among the sources) names the three backend kinds, in-memory, local-persistent and
  session-persistent. \<open>UNSUPPORTED\<close> stands for every other selector, for which the
  lookup in \<open>STORAGE\<close> is \<open>undefined\<close>.
\<close>

datatype cacheTypeEnumerate = LOCAL | SESSION | MEMORY | UNSUPPORTED

text \<open>
  Modelled from the spec: \<open>MemoryStorage\<close> (module \<open>memory-storage\<close>, not among the
  sources) is the in-process backend with the capability surface get, set, remove and
  enumerate, where a missing key reads as \<open>null\<close> and values are stored as they are.

  The world is the three media shared by every instance, and the host's interval
  timers. \<open>localStorage\<close> and \<open>sessionStorage\<close> hold strings. A medium is an
  association list in insertion order, which is the order its keys are enumerated in.
\<close>

record world =
  localStorage :: "(string \<times> payload) list"
  sessionStorage :: "(string \<times> payload) list"
  MemoryStorage :: "(string \<times> jsval) list"
  timers :: "(nat \<times> jsval) list"
  next_timer :: nat

definition MAX_SIGNED_INT :: int where
  "MAX_SIGNED_INT = 2147483647"

fun put :: "string \<Rightarrow> 'a \<Rightarrow> (string \<times> 'a) list \<Rightarrow> (string \<times> 'a) list" where
  "put k v [] = [(k, v)]"
| "put k v (p # ps) = (if fst p = k then (k, v) # ps else p # put k v ps)"

definition del :: "string \<Rightarrow> (string \<times> 'a) list \<Rightarrow> (string \<times> 'a) list" where
  "del k ps = filter (\<lambda>p. fst p \<noteq> k) ps"

text \<open>The own enumerable keys of \<open>this.storage\<close>; none when the storage is \<open>undefined\<close>.\<close>

fun storage_keys :: "world \<Rightarrow> cacheTypeEnumerate \<Rightarrow> string list" where
  "storage_keys w LOCAL = map fst (localStorage w)"
| "storage_keys w SESSION = map fst (sessionStorage w)"
| "storage_keys w MEMORY = map fst (MemoryStorage w)"
| "storage_keys w UNSUPPORTED = []"

text \<open>\<open>this.storage.removeItem(k)\<close>; a method call on \<open>undefined\<close> throws.\<close>

fun storage_removeItem :: "world \<Rightarrow> cacheTypeEnumerate \<Rightarrow> string \<Rightarrow> world res" where
  "storage_removeItem w LOCAL k = Inr (w\<lparr>localStorage := del k (localStorage w)\<rparr>)"
| "storage_removeItem w SESSION k = Inr (w\<lparr>sessionStorage := del k (sessionStorage w)\<rparr>)"
| "storage_removeItem w MEMORY k = Inr (w\<lparr>MemoryStorage := del k (MemoryStorage w)\<rparr>)"
| "storage_removeItem w UNSUPPORTED k = Inl TypeError"

text \<open>
  \<open>this.storage.setItem(k, obj)\<close>, with the \<open>JSON.stringify\<close> that \<open>setItem\<close> applies
  first on the two text backends.
\<close>

fun storage_setItem :: "world \<Rightarrow> cacheTypeEnumerate \<Rightarrow> string \<Rightarrow> jsval \<Rightarrow> world res" where
  "storage_setItem w LOCAL k obj =
     Inr (w\<lparr>localStorage := put k (JSON_stringify obj) (localStorage w)\<rparr>)"
| "storage_setItem w SESSION k obj =
     Inr (w\<lparr>sessionStorage := put k (JSON_stringify obj) (sessionStorage w)\<rparr>)"
| "storage_setItem w MEMORY k obj = Inr (w\<lparr>MemoryStorage := put k obj (MemoryStorage w)\<rparr>)"
| "storage_setItem w UNSUPPORTED k obj = Inl TypeError"

text \<open>
  \<open>this.storage.getItem(k)\<close> followed by the unguarded \<open>JSON.parse\<close> of \<open>getItem\<close>:
  a syntax error propagates.
\<close>

fun storage_getItem_parse :: "world \<Rightarrow> cacheTypeEnumerate \<Rightarrow> string \<Rightarrow> jsval res" where
  "storage_getItem_parse w LOCAL k = JSON_parse (map_of (localStorage w) k)"
| "storage_getItem_parse w SESSION k = JSON_parse (map_of (sessionStorage w) k)"
| "storage_getItem_parse w MEMORY k =
     Inr (case map_of (MemoryStorage w) k of None \<Rightarrow> JNull | Some v \<Rightarrow> v)"
| "storage_getItem_parse w UNSUPPORTED k = Inl TypeError"

text \<open>
  \<open>JSON.parse\<close> inside \<open>try { } catch (e) {}\<close>, as \<open>isExpired\<close> has it: after a
  syntax error \<open>obj\<close> is still the raw string.
\<close>

fun try_JSON_parse :: "payload option \<Rightarrow> jsval" where
  "try_JSON_parse None = JNull"
| "try_JSON_parse (Some (Json v)) = v"
| "try_JSON_parse (Some (Malformed s)) = JStr s"

fun storage_getItem_try_parse :: "world \<Rightarrow> cacheTypeEnumerate \<Rightarrow> string \<Rightarrow> jsval res" where
  "storage_getItem_try_parse w LOCAL k = Inr (try_JSON_parse (map_of (localStorage w) k))"
| "storage_getItem_try_parse w SESSION k = Inr (try_JSON_parse (map_of (sessionStorage w) k))"
| "storage_getItem_try_parse w MEMORY k =
     Inr (case map_of (MemoryStorage w) k of None \<Rightarrow> JNull | Some v \<Rightarrow> v)"
| "storage_getItem_try_parse w UNSUPPORTED k = Inl TypeError"

subsection \<open>Interval timers\<close>

datatype handle = HUndefined | HNull | HId nat

definition setInterval :: "jsval \<Rightarrow> world \<Rightarrow> nat \<times> world" where
  "setInterval delay w =
     (next_timer w, w\<lparr>timers := timers w @ [(next_timer w, delay)],
                      next_timer := Suc (next_timer w)\<rparr>)"

fun clearInterval :: "handle \<Rightarrow> world \<Rightarrow> world" where
  "clearInterval (HId n) w = w\<lparr>timers := filter (\<lambda>p. fst p \<noteq> n) (timers w)\<rparr>"
| "clearInterval h w = w"

section \<open>CacheManager\<close>

text \<open>
  The fields of an instance. \<open>this.storage\<close> is \<open>STORAGE[storageType]\<close>, set once by the
  constructor, so the selector stands for it. \<open>Date.now()\<close> is the parameter \<open>now\<close> of
  each method: one call is one instant. \<open>destruct\<close>, which nulls every field and after
  which the instance is not to be used, is not part of the model.
\<close>

record CacheManager =
  storageType :: cacheTypeEnumerate
  namespace :: string
  storedKeys :: "string list"
  expire :: jsval
  interval :: handle

text \<open>A method returns its result, or the error it threw, with the state it left.\<close>

type_synonym 'a outcome = "'a res \<times> world \<times> CacheManager"

text \<open>The setter of \<open>expire\<close>.\<close>

definition set_expire :: "jsval \<Rightarrow> world \<Rightarrow> CacheManager \<Rightarrow> world \<times> CacheManager" where
  "set_expire v w c =
     (let c1 = c\<lparr>expire := v\<rparr>;
          w1 = (if interval c1 \<noteq> HNull then clearInterval (interval c1) w else w)
      in if js_gt v 0 \<and> js_lt v MAX_SIGNED_INT
         then (case setInterval v w1 of (h, w2) \<Rightarrow> (w2, c1\<lparr>interval := HId h\<rparr>))
         else (w1, c1))"

definition getStoredKeys :: "world \<Rightarrow> CacheManager \<Rightarrow> string list" where
  "getStoredKeys w c =
     filter (\<lambda>key. prefix (namespace c @ ''_'') key) (storage_keys w (storageType c))"

definition getNamespaceKey :: "CacheManager \<Rightarrow> string \<Rightarrow> string" where
  "getNamespaceKey c key =
     (if key \<in> set (storedKeys c) then key else namespace c @ ''_'' @ md5 key)"

text \<open>
  The constructor, with its two default parameters: an omitted (\<open>undefined\<close>) ttl is
  3600000, an omitted selector is \<open>MEMORY\<close>.
\<close>

definition new_CacheManager ::
  "world \<Rightarrow> string \<Rightarrow> cacheTypeEnumerate option \<Rightarrow> jsval \<Rightarrow> (world \<times> CacheManager) res" where
  "new_CacheManager w ns sel ttl =
     (let ty = (case sel of None \<Rightarrow> MEMORY | Some t \<Rightarrow> t);
          e = (if ttl = JUndefined then JNum 3600000 else ttl);
          c0 = \<lparr>storageType = ty, namespace = ns, storedKeys = [],
                expire = JUndefined, interval = HUndefined\<rparr>;
          c1 = c0\<lparr>storedKeys := getStoredKeys w c0\<rparr>
      in Inr (set_expire e w c1))"

definition envelope :: "int \<Rightarrow> jsval \<Rightarrow> jsval" where
  "envelope now v = JObj [(''t'', JNum now), (''v'', v)]"

definition setItem :: "int \<Rightarrow> world \<Rightarrow> CacheManager \<Rightarrow> string \<Rightarrow> jsval \<Rightarrow> unit outcome" where
  "setItem now w c key v =
     (let obj = envelope now v;
          namespaceKey = getNamespaceKey c key
      in case storage_setItem w (storageType c) namespaceKey obj of
           Inl e \<Rightarrow> (Inl e, w, c)
         | Inr w' \<Rightarrow> (Inr (), w', c\<lparr>storedKeys := storedKeys c @ [namespaceKey]\<rparr>))"

definition removeItem :: "world \<Rightarrow> CacheManager \<Rightarrow> string \<Rightarrow> unit outcome" where
  "removeItem w c key =
     (let namespaceKey = getNamespaceKey c key
      in if namespaceKey \<in> set (storedKeys c)
         then (case storage_removeItem w (storageType c) namespaceKey of
                 Inl e \<Rightarrow> (Inl e, w, c)
               | Inr w' \<Rightarrow> (Inr (), w', c\<lparr>storedKeys := remove1 namespaceKey (storedKeys c)\<rparr>))
         else (Inr (), w, c))"

definition isExpired :: "int \<Rightarrow> world \<Rightarrow> CacheManager \<Rightarrow> string \<Rightarrow> bool res" where
  "isExpired now w c key =
     (case expire c of
        JNum ttl \<Rightarrow>
          if ttl \<le> 0 then Inr False
          else (case storage_getItem_try_parse w (storageType c) (getNamespaceKey c key) of
                  Inl e \<Rightarrow> Inl e
                | Inr obj \<Rightarrow>
                    if obj = JNull then Inr True
                    else (case get_prop obj ''t'' of
                            Inl e \<Rightarrow> Inl e
                          | Inr t \<Rightarrow> Inr (js_lt t (now - ttl))))
      | _ \<Rightarrow> Inr False)"

definition getItem :: "int \<Rightarrow> world \<Rightarrow> CacheManager \<Rightarrow> string \<Rightarrow> jsval outcome" where
  "getItem now w c key =
     (case storage_getItem_parse w (storageType c) (getNamespaceKey c key) of
        Inl e \<Rightarrow> (Inl e, w, c)
      | Inr obj \<Rightarrow>
          if obj = JNull then (Inr obj, w, c)
          else (case hasOwnProperty obj ''t'' of
                  Inl e \<Rightarrow> (Inl e, w, c)
                | Inr False \<Rightarrow> (Inr obj, w, c)
                | Inr True \<Rightarrow>
                    (case isExpired now w c key of
                       Inl e \<Rightarrow> (Inl e, w, c)
                     | Inr True \<Rightarrow>
                         (case removeItem w c key of
                            (Inl e, w', c') \<Rightarrow> (Inl e, w', c')
                          | (Inr u, w', c') \<Rightarrow> (Inr JNull, w', c'))
                     | Inr False \<Rightarrow>
                         (case get_prop obj ''v'' of
                            Inl e \<Rightarrow> (Inl e, w, c)
                          | Inr v \<Rightarrow> (Inr v, w, c)))))"

text \<open>\<open>clear\<close>: the loop removes each tracked key; the tracked list is emptied after it.\<close>

fun clear_loop :: "cacheTypeEnumerate \<Rightarrow> string list \<Rightarrow> world \<Rightarrow> unit res \<times> world" where
  "clear_loop ty [] w = (Inr (), w)"
| "clear_loop ty (k # ks) w =
     (case storage_removeItem w ty k of
        Inl e \<Rightarrow> (Inl e, w)
      | Inr w' \<Rightarrow> clear_loop ty ks w')"

definition clear :: "world \<Rightarrow> CacheManager \<Rightarrow> unit outcome" where
  "clear w c =
     (case clear_loop (storageType c) (storedKeys c) w of
        (Inl e, w') \<Rightarrow> (Inl e, w', c)
      | (Inr u, w') \<Rightarrow> (Inr (), w', c\<lparr>storedKeys := []\<rparr>))"

text \<open>
  \<open>removeExpired\<close>: the loop runs an index over \<open>this.storedKeys\<close>, re-reading its
  length at each turn, while \<open>removeItem\<close> splices the list.
\<close>

function removeExpired_loop :: "int \<Rightarrow> nat \<Rightarrow> world \<Rightarrow> CacheManager \<Rightarrow> unit outcome" where
  "removeExpired_loop now i w c =
     (if i < length (storedKeys c) then
        (case isExpired now w c (storedKeys c ! i) of
           Inl e \<Rightarrow> (Inl e, w, c)
         | Inr b \<Rightarrow>
             if b then
               (case removeItem w c (storedKeys c ! i) of
                  (Inl e, w', c') \<Rightarrow> (Inl e, w', c')
                | (Inr u, w', c') \<Rightarrow> removeExpired_loop now (i + 1) w' c')
             else removeExpired_loop now (i + 1) w c)
      else (Inr (), w, c))"
  by pat_completeness auto
termination
proof (relation "measure (\<lambda>(now, i, w, c). length (storedKeys c) - i)", goal_cases)
  case 1
  show ?case by simp
next
  case (2 now i w c b r x y w' c')
  have "length (storedKeys (snd (snd (removeItem w c (storedKeys c ! i)))))
          \<le> length (storedKeys c)"
    by (simp add: removeItem_def Let_def length_remove1 split: sum.splits)
  with 2 show ?case by (cases "removeItem w c (storedKeys c ! i)") auto
next
  case 3
  then show ?case by auto
qed

definition removeExpired :: "int \<Rightarrow> world \<Rightarrow> CacheManager \<Rightarrow> unit outcome" where
  "removeExpired now w c = removeExpired_loop now 0 w c"

text \<open>
  \<open>getCollection\<close>: refresh the tracked keys from the medium, then collect the value
  of every key that is not expired.
\<close>

function getCollection_loop ::
  "int \<Rightarrow> nat \<Rightarrow> world \<Rightarrow> CacheManager \<Rightarrow> (string \<times> jsval) list \<Rightarrow> (string \<times> jsval) list outcome" where
  "getCollection_loop now i w c collection =
     (if i < length (storedKeys c) then
        (case isExpired now w c (storedKeys c ! i) of
           Inl e \<Rightarrow> (Inl e, w, c)
         | Inr b \<Rightarrow>
             if b then getCollection_loop now (i + 1) w c collection
             else
               (case getItem now w c (storedKeys c ! i) of
                  (Inl e, w', c') \<Rightarrow> (Inl e, w', c')
                | (Inr v, w', c') \<Rightarrow>
                    getCollection_loop now (i + 1) w' c' (put (storedKeys c ! i) v collection)))
      else (Inr collection, w, c))"
  by pat_completeness auto
termination
proof (relation "measure (\<lambda>(now, i, w, c, collection). length (storedKeys c) - i)", goal_cases)
  case 1
  show ?case by simp
next
  case 2
  then show ?case by auto
next
  case (3 now i w c collection b r x y w' c')
  have "length (storedKeys (snd (snd (removeItem w c (storedKeys c ! i)))))
          \<le> length (storedKeys c)"
    by (simp add: removeItem_def Let_def length_remove1 split: sum.splits)
  then have "length (storedKeys (snd (snd (getItem now w c (storedKeys c ! i)))))
          \<le> length (storedKeys c)"
    by (auto simp: getItem_def split: sum.splits bool.splits prod.splits)
  with 3 show ?case by (cases "getItem now w c (storedKeys c ! i)") auto
qed

definition getCollection :: "int \<Rightarrow> world \<Rightarrow> CacheManager \<Rightarrow> (string \<times> jsval) list outcome" where
  "getCollection now w c = getCollection_loop now 0 w (c\<lparr>storedKeys := getStoredKeys w c\<rparr>) []"

definition size_of :: "int \<Rightarrow> world \<Rightarrow> CacheManager \<Rightarrow> nat outcome" where
  "size_of now w c =
     (case getCollection now w c of
        (Inl e, w', c') \<Rightarrow> (Inl e, w', c')
      | (Inr collection, w', c') \<Rightarrow> (Inr (length collection), w', c'))"

subsection \<open>The lifetime of an instance\<close>

text \<open>
  The calls a client makes on a live instance, and the states an instance can be in:
  the one its constructor leaves, and every state a call leaves, whatever the media
  hold at that moment (other instances and other code write to them as well).
\<close>

datatype call =
    SetItem string jsval
  | GetItem string
  | RemoveItem string
  | Clear
  | GetCollection
  | Size
  | RemoveExpired
  | SetExpire jsval

fun perform :: "int \<Rightarrow> call \<Rightarrow> world \<Rightarrow> CacheManager \<Rightarrow> world \<times> CacheManager" where
  "perform now (SetItem key v) w c = snd (setItem now w c key v)"
| "perform now (GetItem key) w c = snd (getItem now w c key)"
| "perform now (RemoveItem key) w c = snd (removeItem w c key)"
| "perform now Clear w c = snd (clear w c)"
| "perform now GetCollection w c = snd (getCollection now w c)"
| "perform now Size w c = snd (size_of now w c)"
| "perform now RemoveExpired w c = snd (removeExpired now w c)"
| "perform now (SetExpire v) w c = set_expire v w c"

inductive reachable :: "CacheManager \<Rightarrow> bool" where
  reachable_new: "new_CacheManager w ns sel ttl = Inr (w', c) \<Longrightarrow> reachable c"
| reachable_step: "reachable c \<Longrightarrow> perform now op w c = (w', c') \<Longrightarrow> reachable c'"


section \<open>recurseObjectByPath\<close>

text \<open>\<open>path.split('.')\<close>.\<close>

fun split :: "char \<Rightarrow> string \<Rightarrow> string list" where
  "split sep [] = [[]]"
| "split sep (ch # cs) =
     (if ch = sep then [] # split sep cs
      else (case split sep cs of [] \<Rightarrow> [[ch]] | p # ps \<Rightarrow> (ch # p) # ps))"

fun str_includes :: "string \<Rightarrow> string \<Rightarrow> bool" where
  "str_includes [] pat = (pat = [])"
| "str_includes (ch # cs) pat = (prefix pat (ch # cs) \<or> str_includes cs pat)"

text \<open>The regular expression \<open>/__proto__|constructor|prototype/\<close> matches anywhere in the key.\<close>

definition isPrototypePolluted :: "string \<Rightarrow> bool" where
  "isPrototypePolluted key =
     (str_includes key ''__proto__'' \<or> str_includes key ''constructor'' \<or> str_includes key ''prototype'')"

text \<open>
  The operation is a callback that receives \<open>recurse\<close> itself and may call it on any
  path, so the recursion is bounded by fuel: \<open>None\<close> is a run that needs more. The
  callback may mutate what it is given; \<open>'st\<close> is the state it works on.
\<close>

type_synonym ('src, 'st) recursion = "string list \<Rightarrow> 'src \<Rightarrow> 'st \<Rightarrow> (jsval \<times> 'st) option"

type_synonym ('src, 'st) operation =
  "string \<Rightarrow> string list \<Rightarrow> 'src \<Rightarrow> ('src, 'st) recursion \<Rightarrow> 'st \<Rightarrow> (jsval \<times> 'st) option"

primrec recurse :: "nat \<Rightarrow> ('src, 'st) operation \<Rightarrow> ('src, 'st) recursion" where
  "recurse 0 op = (\<lambda>argPathParts source st. None)"
| "recurse (Suc n) op = (\<lambda>argPathParts source st.
     let key = (if argPathParts \<noteq> [] then hd argPathParts else '''');
         subPath = (if argPathParts \<noteq> [] then tl argPathParts else [])
     in if isPrototypePolluted key then Some (JUndefined, st)
        else op key subPath source (recurse n op) st)"

definition recurseObjectByPath ::
  "nat \<Rightarrow> 'src \<Rightarrow> string \<Rightarrow> ('src, 'st) operation \<Rightarrow> 'st \<Rightarrow> (jsval \<times> 'st) option" where
  "recurseObjectByPath fuel obj path op st =
     (let pathParts = (if path = '''' then [] else split (CHR ''.'') path)
      in recurse fuel op pathParts obj st)"

text \<open>
  Two operations to run \<open>recurseObjectByPath\<close> on: both record each key they are called
  with and walk to the end of the path; the second would answer \<open>null\<close> and wipe the
  record if it were ever called with a guarded key.
\<close>

definition record_keys :: "(unit, string list) operation" where
  "record_keys key subPath source rec st =
     (if subPath = [] then Some (JStr key, st @ [key]) else rec subPath source (st @ [key]))"

definition record_keys_trap :: "(unit, string list) operation" where
  "record_keys_trap key subPath source rec st =
     (if isPrototypePolluted key then Some (JNull, [])
      else record_keys key subPath source rec st)"

section \<open>Predicates and scenarios of the statements\<close>




text \<open>\<open>shrinks c c'\<close>: \<open>c'\<close> is \<open>c\<close> with some tracked keys dropped.\<close>

definition shrinks :: "CacheManager \<Rightarrow> CacheManager \<Rightarrow> bool" where
  "shrinks c c' = (storageType c' = storageType c \<and> namespace c' = namespace c
                   \<and> expire c' = expire c \<and> interval c' = interval c
                   \<and> set (storedKeys c') \<subseteq> set (storedKeys c))"

text \<open>Every tracked key starts with the namespace and an underscore.\<close>

definition owned :: "CacheManager \<Rightarrow> bool" where
  "owned c = list_all (prefix (namespace c @ ''_'')) (storedKeys c)"

text \<open>A sequence of timed calls on one instance.\<close>

fun run :: "(int \<times> call) list \<Rightarrow> world \<times> CacheManager \<Rightarrow> world \<times> CacheManager" where
  "run [] s = s"
| "run ((now, op) # ops) s = run ops (perform now op (fst s) (snd s))"

text \<open>
  The scenario of the specification: namespace \<open>users\<close>, a ttl of 1000 ms, and the entry
  \<open>alice\<close> written at time 0, on the in-memory backend and on \<open>localStorage\<close>.
\<close>

definition empty_world :: world where
  "empty_world = \<lparr>localStorage = [], sessionStorage = [], MemoryStorage = [],
                   timers = [], next_timer = 1\<rparr>"

definition users_world :: world where
  "users_world = empty_world\<lparr>timers := [(1, JNum 1000)], next_timer := 2\<rparr>"

definition users_cache :: CacheManager where
  "users_cache = \<lparr>storageType = MEMORY, namespace = ''users'', storedKeys = [],
                   expire = JNum 1000, interval = HId 1\<rparr>"

definition local_cache :: CacheManager where
  "local_cache = users_cache\<lparr>storageType := LOCAL\<rparr>"

definition alice :: jsval where
  "alice = JObj [(''age'', JNum 30)]"

definition alice_key :: string where
  "alice_key = ''users_6384e2b2184bcbf58eccf10ca7a6563c''"

definition memory_alice :: "world \<times> CacheManager" where
  "memory_alice = run [(0, SetItem ''alice'' alice)] (users_world, users_cache)"

definition local_alice :: "world \<times> CacheManager" where
  "local_alice = run [(0, SetItem ''alice'' alice)] (users_world, local_cache)"

text \<open>Two entries written at time 0 and left to expire.\<close>

definition two_writes :: "world \<times> CacheManager" where
  "two_writes = run [(0, SetItem ''a'' (JStr ''first'')), (0, SetItem ''b'' (JStr ''second''))]
                    (users_world, users_cache)"

text \<open>A \<open>localStorage\<close> whose entry for \<open>alice\<close> is not JSON, and the instance built on it.\<close>

definition corrupt_world :: world where
  "corrupt_world = users_world\<lparr>localStorage := [(alice_key, Malformed ''{t:'')]\<rparr>"

definition corrupt_cache :: CacheManager where
  "corrupt_cache = local_cache\<lparr>storedKeys := [alice_key]\<rparr>"

text \<open>Two instances on the in-memory backend whose namespaces are \<open>a\<close> and \<open>a_b\<close>.\<close>

definition cache_a :: CacheManager where
  "cache_a = \<lparr>storageType = MEMORY, namespace = ''a'', storedKeys = [],
               expire = JNum 1000, interval = HId 1\<rparr>"

definition cache_b :: CacheManager where
  "cache_b = \<lparr>storageType = MEMORY, namespace = ''a_b'', storedKeys = [],
               expire = JNum 1000, interval = HId 2\<rparr>"

definition shared_world :: world where
  "shared_world = empty_world\<lparr>timers := [(1, JNum 1000), (2, JNum 1000)], next_timer := 3\<rparr>"

section \<open>Properties of md5\<close>

lemma md5_empty: "md5 '''' = ''d41d8cd98f00b204e9800998ecf8427e''"
  by code_simp

lemma md5_alice: "md5 ''alice'' = ''6384e2b2184bcbf58eccf10ca7a6563c''"
  by code_simp

lemma md5_two_blocks:
  "md5 ''12345678901234567890123456789012345678901234567890123456789012345678901234567890''
     = ''57edf4a22be3c955ac49da2e2107b67a''"
  by code_simp


lemma length_hex_bytes: "length (concat (map hex_byte bs)) = 2 * length bs"
  by (induction bs) (simp_all add: hex_byte_def)

lemma length_le_bytes_concat: "length (concat (map (le_bytes n) xs)) = n * length xs"
  by (induction xs) (simp_all add: le_bytes_def)

lemma length_md5_digest: "length (md5_digest h) = 32"
proof (cases h)
  case (fields a b c d)
  have "length (concat (map (le_bytes 4) [a, b, c, d])) = 16"
    by (simp only: length_le_bytes_concat) simp
  then show ?thesis
    by (simp only: fields md5_digest_def prod.case length_hex_bytes)
qed

lemma length_md5: "length (md5 s) = 32"
  by (simp add: md5_def Let_def length_md5_digest)

section \<open>Properties of recurseObjectByPath\<close>

lemma recurse_agree:
  assumes "\<And>key sub src rec st.
             \<not> isPrototypePolluted key \<Longrightarrow> op key sub src rec st = op' key sub src rec st"
  shows "recurse n op = recurse n op'"
proof (induction n)
  case 0
  show ?case by simp
next
  case (Suc n)
  show ?case by (intro ext) (simp add: Let_def Suc.IH assms)
qed

text \<open>
  C10. The callback is never invoked with a key that contains \<open>__proto__\<close>,
  \<open>constructor\<close> or \<open>prototype\<close>: what the callback would do on such a key has no
  effect on any run (two callbacks that agree on all other keys give the same result and
  the same final state, for every object, path and fuel), and a call of \<open>recurse\<close> whose
  first segment is such a key returns \<open>undefined\<close> and leaves the state as it was.
\<close>

theorem recurseObjectByPath_guard:
  assumes "\<And>key sub src rec st.
             \<not> isPrototypePolluted key \<Longrightarrow> op key sub src rec st = op' key sub src rec st"
  shows "recurseObjectByPath n obj path op st = recurseObjectByPath n obj path op' st
       \<and> (isPrototypePolluted key \<longrightarrow>
            recurse (Suc n) op (key # rest) source st = Some (JUndefined, st))"
proof -
  have "recurse n op = recurse n op'"
    using assms by (rule recurse_agree)
  then show ?thesis by (simp add: recurseObjectByPath_def Let_def)
qed

theorem recurseObjectByPath_guard_witness:
  "isPrototypePolluted ''__proto__''
   \<and> recurseObjectByPath 3 () ''a.__proto__.b'' record_keys []
       = recurseObjectByPath 3 () ''a.__proto__.b'' record_keys_trap []
   \<and> recurseObjectByPath 3 () ''a.__proto__.b'' record_keys [] = Some (JUndefined, [''a''])
   \<and> recurse (Suc 3) record_keys [''__proto__'', ''b''] () [] = Some (JUndefined, [])"
proof -
  have agree: "\<And>key sub src rec st.
      \<not> isPrototypePolluted key \<Longrightarrow> record_keys key sub src rec st = record_keys_trap key sub src rec st"
    by (simp add: record_keys_trap_def)
  have polluted: "isPrototypePolluted ''__proto__''"
    by (simp add: isPrototypePolluted_def)
  have run: "recurseObjectByPath 3 () ''a.__proto__.b'' record_keys [] = Some (JUndefined, [''a''])"
    by (simp add: recurseObjectByPath_def record_keys_def isPrototypePolluted_def
        numeral_3_eq_3 Let_def)
  from recurseObjectByPath_guard [of record_keys record_keys_trap 3 "()" "''a.__proto__.b''" "[]"
      "''__proto__''" "[''b'']" "()", OF agree] polluted run
  show ?thesis by simp
qed

section \<open>Properties of the storage media and of JSON\<close>

declare removeExpired_loop.simps [simp del] getCollection_loop.simps [simp del]

lemma map_of_put: "map_of (put k v ps) k = Some v"
  by (induction ps) auto

lemma fst_set_put: "fst ` set (put k v ps) = insert k (fst ` set ps)"
  by (induction ps) auto

lemma json_of_serializable: "serializable v \<Longrightarrow> json_of v = v"
proof (induction v)
  case (JArr xs)
  then have "\<And>x. x \<in> set xs \<Longrightarrow> json_of x = x \<and> x \<noteq> JUndefined"
    by (auto simp: list_all_iff)
  then have "map (\<lambda>x. if x = JUndefined then JNull else x) (map json_of xs) = xs"
    by (simp add: map_idI)
  then show ?case by simp
next
  case (JObj kvs)
  then have ok: "\<And>p. p \<in> set kvs \<Longrightarrow> json_of (snd p) = snd p \<and> snd p \<noteq> JUndefined"
    by (auto simp: list_all_iff snds.simps)
  then have "map (map_prod id json_of) kvs = kvs"
    by (intro map_idI) (auto simp: map_prod_def split: prod.splits)
  moreover have "filter (\<lambda>p. snd p \<noteq> JUndefined) kvs = kvs"
    using ok by (simp add: filter_id_conv)
  ultimately show ?case by simp
qed simp_all

lemma stringify_envelope:
  "serializable v \<Longrightarrow> JSON_stringify (envelope now v) = Json (envelope now v)"
  by (cases "v = JUndefined") (simp_all add: JSON_stringify_def envelope_def json_of_serializable)

section \<open>Evaluating the scenarios\<close>

lemma md5_a: "md5 ''a'' = ''0cc175b9c0f1b6a831c399e269772661''"
  by code_simp

lemma md5_b: "md5 ''b'' = ''92eb5ffee6ae2fec3ad71c777531578f''"
  by code_simp

lemma removeExpired_loop_done:
  "\<not> i < length (storedKeys c) \<Longrightarrow> removeExpired_loop now i w c = (Inr (), w, c)"
  by (simp add: removeExpired_loop.simps)

lemma removeExpired_loop_remove:
  "i < length (storedKeys c) \<Longrightarrow> isExpired now w c (storedKeys c ! i) = Inr True \<Longrightarrow>
   removeItem w c (storedKeys c ! i) = (Inr u, w', c') \<Longrightarrow>
   removeExpired_loop now i w c = removeExpired_loop now (Suc i) w' c'"
  by (simp add: removeExpired_loop.simps [of now i w c])

lemma removeExpired_loop_keep:
  "i < length (storedKeys c) \<Longrightarrow> isExpired now w c (storedKeys c ! i) = Inr False \<Longrightarrow>
   removeExpired_loop now i w c = removeExpired_loop now (Suc i) w c"
  by (simp add: removeExpired_loop.simps [of now i w c])

lemma getCollection_loop_done:
  "\<not> i < length (storedKeys c) \<Longrightarrow> getCollection_loop now i w c coll = (Inr coll, w, c)"
  by (simp add: getCollection_loop.simps)

lemma getCollection_loop_skip:
  "i < length (storedKeys c) \<Longrightarrow> isExpired now w c (storedKeys c ! i) = Inr True \<Longrightarrow>
   getCollection_loop now i w c coll = getCollection_loop now (Suc i) w c coll"
  by (simp add: getCollection_loop.simps [of now i w c])

lemma getCollection_loop_collect:
  "i < length (storedKeys c) \<Longrightarrow> isExpired now w c (storedKeys c ! i) = Inr False \<Longrightarrow>
   getItem now w c (storedKeys c ! i) = (Inr v, w', c') \<Longrightarrow>
   getCollection_loop now i w c coll
     = getCollection_loop now (Suc i) w' c' (put (storedKeys c ! i) v coll)"
  by (simp add: getCollection_loop.simps [of now i w c])

lemma getCollection_loop_throw:
  "i < length (storedKeys c) \<Longrightarrow> isExpired now w c (storedKeys c ! i) = Inr False \<Longrightarrow>
   getItem now w c (storedKeys c ! i) = (Inl e, w', c') \<Longrightarrow>
   getCollection_loop now i w c coll = (Inl e, w', c')"
  by (simp add: getCollection_loop.simps [of now i w c])

lemmas scenario_defs =
  empty_world_def users_world_def users_cache_def local_cache_def alice_def alice_key_def
  corrupt_world_def corrupt_cache_def cache_a_def cache_b_def shared_world_def

lemmas method_defs =
  new_CacheManager_def set_expire_def setInterval_def getStoredKeys_def getNamespaceKey_def
  setItem_def getItem_def removeItem_def isExpired_def envelope_def JSON_stringify_def
  js_lt_def js_gt_def MAX_SIGNED_INT_def del_def Let_def

lemma users_cache_new:
  "new_CacheManager empty_world ''users'' None (JNum 1000) = Inr (users_world, users_cache)"
  by (simp add: scenario_defs method_defs)

lemma local_cache_new:
  "new_CacheManager empty_world ''users'' (Some LOCAL) (JNum 1000) = Inr (users_world, local_cache)"
  by (simp add: scenario_defs method_defs)

lemma corrupt_cache_new:
  "new_CacheManager (empty_world\<lparr>localStorage := [(alice_key, Malformed ''{t:'')]\<rparr>)
     ''users'' (Some LOCAL) (JNum 1000) = Inr (corrupt_world, corrupt_cache)"
  by (simp add: scenario_defs method_defs)

lemma cache_a_new:
  "new_CacheManager empty_world ''a'' None (JNum 1000)
     = Inr (empty_world\<lparr>timers := [(1, JNum 1000)], next_timer := 2\<rparr>, cache_a)"
  by (simp add: scenario_defs method_defs)

lemma cache_b_new:
  "new_CacheManager (empty_world\<lparr>timers := [(1, JNum 1000)], next_timer := 2\<rparr>)
     ''a_b'' None (JNum 1000) = Inr (shared_world, cache_b)"
  by (simp add: scenario_defs method_defs)

lemma memory_alice_eq:
  "memory_alice = (users_world\<lparr>MemoryStorage := [(alice_key, envelope 0 alice)]\<rparr>,
                   users_cache\<lparr>storedKeys := [alice_key]\<rparr>)"
  by (simp add: memory_alice_def scenario_defs method_defs md5_alice)

lemma local_alice_eq:
  "local_alice = (users_world\<lparr>localStorage := [(alice_key, Json (envelope 0 alice))]\<rparr>,
                  local_cache\<lparr>storedKeys := [alice_key]\<rparr>)"
  by (simp add: local_alice_def scenario_defs method_defs md5_alice)

lemma two_writes_eq:
  "two_writes =
     (users_world\<lparr>MemoryStorage :=
        [(''users_0cc175b9c0f1b6a831c399e269772661'', envelope 0 (JStr ''first'')),
         (''users_92eb5ffee6ae2fec3ad71c777531578f'', envelope 0 (JStr ''second''))]\<rparr>,
      users_cache\<lparr>storedKeys := [''users_0cc175b9c0f1b6a831c399e269772661'',
                                  ''users_92eb5ffee6ae2fec3ad71c777531578f'']\<rparr>)"
  by (simp add: two_writes_def scenario_defs method_defs md5_a md5_b)
section \<open>Reading back what was written\<close>

lemma getNamespaceKey_snoc:
  "getNamespaceKey (c\<lparr>storedKeys := storedKeys c @ [getNamespaceKey c k]\<rparr>) k = getNamespaceKey c k"
  by (simp add: getNamespaceKey_def)

lemma setItem_result:
  assumes "storageType c \<noteq> UNSUPPORTED"
  shows "\<exists>w'. setItem t0 w c k v
           = (Inr (), w', c\<lparr>storedKeys := storedKeys c @ [getNamespaceKey c k]\<rparr>)
         \<and> storage_getItem_try_parse w' (storageType c) (getNamespaceKey c k)
             = Inr (if storageType c = MEMORY then envelope t0 v else json_of (envelope t0 v))
         \<and> storage_getItem_parse w' (storageType c) (getNamespaceKey c k)
             = Inr (if storageType c = MEMORY then envelope t0 v else json_of (envelope t0 v))"
  using assms
  by (cases "storageType c") (simp_all add: setItem_def Let_def map_of_put JSON_stringify_def)

lemma read_after_write:
  assumes ty: "storageType c \<noteq> UNSUPPORTED"
      and ser: "storageType c = MEMORY \<or> serializable v"
      and set: "setItem t0 w c k v = (r, w', c')"
  shows "r = Inr ()"
    and "isExpired t1 w' c' k
           = Inr (case expire c of JNum ttl \<Rightarrow> 0 < ttl \<and> t0 < t1 - ttl | _ \<Rightarrow> False)"
    and "isExpired t1 w' c' k = Inr False \<Longrightarrow> getItem t1 w' c' k = (Inr v, w', c')"
    and "isExpired t1 w' c' k = Inr True \<Longrightarrow> fst (getItem t1 w' c' k) = Inr JNull"
proof -
  from setItem_result [OF ty, of t0 w k v] set
  have r: "r = Inr ()"
    and c': "c' = c\<lparr>storedKeys := storedKeys c @ [getNamespaceKey c k]\<rparr>"
    and rd1: "storage_getItem_try_parse w' (storageType c) (getNamespaceKey c k)
             = Inr (if storageType c = MEMORY then envelope t0 v else json_of (envelope t0 v))"
    and rd2: "storage_getItem_parse w' (storageType c) (getNamespaceKey c k)
             = Inr (if storageType c = MEMORY then envelope t0 v else json_of (envelope t0 v))"
    by auto
  have env: "(if storageType c = MEMORY then envelope t0 v else json_of (envelope t0 v))
               = envelope t0 v"
    using ser stringify_envelope [of v t0] by (auto simp: JSON_stringify_def)
  have key: "getNamespaceKey c' k = getNamespaceKey c k"
    unfolding c' by (rule getNamespaceKey_snoc)
  have ty': "storageType c' = storageType c" and ex': "expire c' = expire c"
    by (simp_all add: c')
  show "r = Inr ()" by (rule r)
  show "isExpired t1 w' c' k
          = Inr (case expire c of JNum ttl \<Rightarrow> 0 < ttl \<and> t0 < t1 - ttl | _ \<Rightarrow> False)"
    by (simp add: isExpired_def key ty' ex' rd1 env split: jsval.splits)
       (simp add: envelope_def js_lt_def)
  have rm: "\<And>x. fst (removeItem w' c' k) = x \<Longrightarrow> x = Inr ()"
    using ty by (cases "storageType c") (auto simp: removeItem_def Let_def ty' split: sum.splits)
  show "isExpired t1 w' c' k = Inr False \<Longrightarrow> getItem t1 w' c' k = (Inr v, w', c')"
    by (simp add: getItem_def key ty' rd2 env) (simp add: envelope_def)
  show "isExpired t1 w' c' k = Inr True \<Longrightarrow> fst (getItem t1 w' c' k) = Inr JNull"
    using rm
    by (simp add: getItem_def key ty' rd2 env)
       (auto simp add: envelope_def split: prod.splits sum.splits)
qed

text \<open>
  C1. On each of the three backends, for every key \<open>k\<close> and every value \<open>v\<close> (on the two
  text backends: every value that JSON carries, that is, with no \<open>undefined\<close> inside),
  \<open>setItem(k, v)\<close> succeeds and a \<open>getItem(k)\<close> that follows it before the entry is
  expired returns exactly \<open>v\<close> and changes nothing.
\<close>

theorem setItem_getItem_roundtrip:
  assumes "storageType c \<noteq> UNSUPPORTED"
      and "storageType c = MEMORY \<or> serializable v"
      and "setItem t0 w c k v = (r, w', c')"
      and "isExpired t1 w' c' k = Inr False"
  shows "r = Inr () \<and> getItem t1 w' c' k = (Inr v, w', c')"
  using read_after_write(1,3) [OF assms(1-3)] assms(4) by simp

theorem setItem_getItem_roundtrip_witness:
  "storageType local_cache \<noteq> UNSUPPORTED \<and> serializable alice
   \<and> setItem 0 users_world local_cache ''alice'' alice = (Inr (), fst local_alice, snd local_alice)
   \<and> isExpired 500 (fst local_alice) (snd local_alice) ''alice'' = Inr False
   \<and> getItem 500 (fst local_alice) (snd local_alice) ''alice''
       = (Inr alice, fst local_alice, snd local_alice)"
proof -
  have ty: "storageType local_cache \<noteq> UNSUPPORTED"
    by (simp add: scenario_defs)
  have ser: "storageType local_cache = MEMORY \<or> serializable alice"
    by (simp add: alice_def)
  have set: "setItem 0 users_world local_cache ''alice'' alice
               = (Inr (), fst local_alice, snd local_alice)"
    by (simp add: local_alice_eq) (simp add: scenario_defs method_defs md5_alice)
  have fresh: "isExpired 500 (fst local_alice) (snd local_alice) ''alice'' = Inr False"
    by (simp add: local_alice_eq) (simp add: scenario_defs method_defs md5_alice)
  from setItem_getItem_roundtrip [OF ty ser set fresh] ty set fresh
  show ?thesis by (simp add: alice_def)
qed

text \<open>
  C2. With a positive ttl \<open>T\<close>, an entry written by \<open>setItem\<close> at time \<open>t0\<close> is expired at
  time \<open>t1\<close> exactly when \<open>t0 < t1 - T\<close>; \<open>getItem\<close> returns the stored value at every
  time before \<open>t0 + T\<close> and \<open>null\<close> at every time after \<open>t0 + T\<close>.
\<close>

theorem ttl_expiry:
  assumes "storageType c \<noteq> UNSUPPORTED"
      and "storageType c = MEMORY \<or> serializable v"
      and "expire c = JNum T" and "0 < T"
      and "setItem t0 w c k v = (r, w', c')"
  shows "isExpired t1 w' c' k = Inr (t0 < t1 - T)
       \<and> (t1 < t0 + T \<longrightarrow> fst (getItem t1 w' c' k) = Inr v)
       \<and> (t0 + T < t1 \<longrightarrow> fst (getItem t1 w' c' k) = Inr JNull)"
proof -
  have ex: "isExpired t1 w' c' k = Inr (t0 < t1 - T)"
    using read_after_write(2) [OF assms(1,2,5), of t1] assms(3,4) by simp
  moreover have "fst (getItem t1 w' c' k) = Inr v" if "t1 < t0 + T"
    using read_after_write(3) [OF assms(1,2,5), of t1] ex that by simp
  moreover have "fst (getItem t1 w' c' k) = Inr JNull" if "t0 + T < t1"
    using read_after_write(4) [OF assms(1,2,5), of t1] ex that by simp
  ultimately show ?thesis by blast
qed

theorem ttl_expiry_witness:
  "expire users_cache = JNum 1000
   \<and> setItem 0 users_world users_cache ''alice'' alice
       = (Inr (), fst memory_alice, snd memory_alice)
   \<and> fst (getItem 500 (fst memory_alice) (snd memory_alice) ''alice'') = Inr alice
   \<and> isExpired 1500 (fst memory_alice) (snd memory_alice) ''alice'' = Inr True
   \<and> fst (getItem 1500 (fst memory_alice) (snd memory_alice) ''alice'') = Inr JNull"
proof -
  have ty: "storageType users_cache \<noteq> UNSUPPORTED"
    by (simp add: scenario_defs)
  have ser: "storageType users_cache = MEMORY \<or> serializable alice"
    by (simp add: scenario_defs)
  have ex: "expire users_cache = JNum 1000"
    by (simp add: scenario_defs)
  have pos: "(0::int) < 1000"
    by simp
  have set: "setItem 0 users_world users_cache ''alice'' alice
               = (Inr (), fst memory_alice, snd memory_alice)"
    by (simp add: memory_alice_eq) (simp add: scenario_defs method_defs md5_alice)
  from ttl_expiry [OF ty ser ex pos set, of 500] ttl_expiry [OF ty ser ex pos set, of 1500] ex set
  show ?thesis by simp
qed

text \<open>
  C3 (the code departs from it). \<open>localStorage\<close> holds text that is not JSON under the
  storage key of \<open>alice\<close>. \<open>getItem('alice')\<close> throws the syntax error of \<open>JSON.parse\<close>,
  and so does \<open>getCollection()\<close>; \<open>isExpired\<close>, which guards its \<open>JSON.parse\<close>, answers
  that the entry is not expired.
\<close>

theorem getItem_malformed_throws:
  "reachable corrupt_cache
   \<and> fst (getItem 500 corrupt_world corrupt_cache ''alice'') = Inl SyntaxError
   \<and> isExpired 500 corrupt_world corrupt_cache ''alice'' = Inr False
   \<and> fst (getCollection 500 corrupt_world corrupt_cache) = Inl SyntaxError"
proof -
  have "reachable corrupt_cache"
    using corrupt_cache_new by (rule reachable_new)
  moreover have "fst (getItem 500 corrupt_world corrupt_cache ''alice'') = Inl SyntaxError"
    by (simp add: scenario_defs method_defs md5_alice)
  moreover have "isExpired 500 corrupt_world corrupt_cache ''alice'' = Inr False"
    by (simp add: scenario_defs method_defs md5_alice)
  moreover have "fst (getCollection 500 corrupt_world corrupt_cache) = Inl SyntaxError"
    by (simp add: getCollection_def getCollection_loop_throw scenario_defs method_defs)
  ultimately show ?thesis by simp
qed

text \<open>
  C6 (the code departs from it). Two entries are written at time 0 with a ttl of
  1000 ms; at time 5000 both are expired. One call of \<open>removeExpired\<close> removes the first
  and stops: the second is still tracked, still stored and still expired.
\<close>

theorem removeExpired_skips:
  "removeExpired 5000 (fst two_writes) (snd two_writes)
     = (Inr (),
        users_world\<lparr>MemoryStorage :=
          [(''users_92eb5ffee6ae2fec3ad71c777531578f'', envelope 0 (JStr ''second''))]\<rparr>,
        users_cache\<lparr>storedKeys := [''users_92eb5ffee6ae2fec3ad71c777531578f'']\<rparr>)
   \<and> isExpired 5000
        (users_world\<lparr>MemoryStorage :=
          [(''users_92eb5ffee6ae2fec3ad71c777531578f'', envelope 0 (JStr ''second''))]\<rparr>)
        (users_cache\<lparr>storedKeys := [''users_92eb5ffee6ae2fec3ad71c777531578f'']\<rparr>)
        ''users_92eb5ffee6ae2fec3ad71c777531578f'' = Inr True"
  by (simp add: two_writes_eq removeExpired_def removeExpired_loop_done
      removeExpired_loop_remove removeExpired_loop_keep scenario_defs method_defs)
section \<open>What the methods leave unchanged\<close>

lemma shrinks_refl: "shrinks c c"
  by (simp add: shrinks_def)

lemma shrinks_trans: "shrinks a b \<Longrightarrow> shrinks b c \<Longrightarrow> shrinks a c"
  by (auto simp: shrinks_def)

lemma shrinks_owned: "shrinks c c' \<Longrightarrow> owned c \<Longrightarrow> owned c'"
  by (auto simp: shrinks_def owned_def list_all_iff)

lemma shrinks_namespace: "shrinks c c' \<Longrightarrow> namespace c' = namespace c"
  by (simp add: shrinks_def)

lemma removeItem_shrinks: "shrinks c (snd (snd (removeItem w c key)))"
  by (auto simp: removeItem_def Let_def shrinks_def split: sum.splits
      dest: set_remove1_subset [THEN subsetD])

lemma getItem_shrinks: "shrinks c (snd (snd (getItem now w c key)))"
  using removeItem_shrinks [of c w key]
  by (auto simp: getItem_def shrinks_refl split: sum.splits bool.splits prod.splits)

lemma clear_shrinks: "shrinks c (snd (snd (clear w c)))"
  by (auto simp: clear_def shrinks_def split: sum.splits prod.splits)

lemma removeExpired_loop_shrinks: "shrinks c (snd (snd (removeExpired_loop now i w c)))"
proof (induction now i w c rule: removeExpired_loop.induct)
  case (1 now i w c)
  note eq = removeExpired_loop.simps [of now i w c]
  show ?case
  proof (cases "i < length (storedKeys c)")
    case False
    then show ?thesis by (simp add: eq shrinks_refl)
  next
    case True
    note i = True
    show ?thesis
    proof (cases "isExpired now w c (storedKeys c ! i)")
      case (Inl e)
      with i show ?thesis by (simp add: eq shrinks_refl)
    next
      case (Inr b)
      note ex = Inr
      show ?thesis
      proof (cases b)
        case False
        with i ex "1.IH"(2) show ?thesis by (simp add: eq)
      next
        case True
        obtain r w' c' where rm: "removeItem w c (storedKeys c ! i) = (r, w', c')"
          by (cases "removeItem w c (storedKeys c ! i)") auto
        have s1: "shrinks c c'"
          using removeItem_shrinks [of c w "storedKeys c ! i"] rm by simp
        show ?thesis
        proof (cases r)
          case (Inl e)
          with i ex True rm s1 show ?thesis by (simp add: eq)
        next
          case (Inr u)
          have "shrinks c' (snd (snd (removeExpired_loop now (i + 1) w' c')))"
            using "1.IH"(1) [OF i ex True rm [symmetric]] Inr by simp
          with s1 have "shrinks c (snd (snd (removeExpired_loop now (i + 1) w' c')))"
            by (rule shrinks_trans)
          with i ex True rm Inr show ?thesis by (simp add: eq)
        qed
      qed
    qed
  qed
qed

lemma getCollection_loop_keys:
  "shrinks c (snd (snd (getCollection_loop now i w c coll)))
   \<and> (\<forall>coll'. fst (getCollection_loop now i w c coll) = Inr coll'
         \<longrightarrow> fst ` set coll' \<subseteq> fst ` set coll \<union> set (storedKeys c))"
proof (induction now i w c coll rule: getCollection_loop.induct)
  case (1 now i w c coll)
  note eq = getCollection_loop.simps [of now i w c coll]
  show ?case
  proof (cases "i < length (storedKeys c)")
    case False
    then show ?thesis by (simp add: eq shrinks_refl)
  next
    case True
    note i = True
    show ?thesis
    proof (cases "isExpired now w c (storedKeys c ! i)")
      case (Inl e)
      with i show ?thesis by (simp add: eq shrinks_refl)
    next
      case (Inr b)
      note ex = Inr
      show ?thesis
      proof (cases b)
        case True
        with i ex "1.IH"(1) show ?thesis by (simp add: eq)
      next
        case False
        obtain r w' c' where gi: "getItem now w c (storedKeys c ! i) = (r, w', c')"
          by (cases "getItem now w c (storedKeys c ! i)") auto
        have s1: "shrinks c c'"
          using getItem_shrinks [of c now w "storedKeys c ! i"] gi by simp
        show ?thesis
        proof (cases r)
          case (Inl e)
          with i ex False gi s1 show ?thesis by (simp add: eq)
        next
          case (Inr v)
          let ?rest = "getCollection_loop now (i + 1) w' c' (put (storedKeys c ! i) v coll)"
          have ih: "shrinks c' (snd (snd ?rest))
            \<and> (\<forall>coll'. fst ?rest = Inr coll'
                  \<longrightarrow> fst ` set coll'
                       \<subseteq> fst ` set (put (storedKeys c ! i) v coll) \<union> set (storedKeys c'))"
            using "1.IH"(2) [OF i ex False gi [symmetric]] Inr by simp
          have sub: "set (storedKeys c') \<subseteq> set (storedKeys c)"
            using s1 by (simp add: shrinks_def)
          have mem: "storedKeys c ! i \<in> set (storedKeys c)"
            using i by simp
          have "shrinks c (snd (snd ?rest))"
            using s1 ih by (blast intro: shrinks_trans)
          moreover have "\<forall>coll'. fst ?rest = Inr coll'
                  \<longrightarrow> fst ` set coll' \<subseteq> fst ` set coll \<union> set (storedKeys c)"
          proof (intro allI impI)
            fix coll'
            assume "fst ?rest = Inr coll'"
            with ih have "fst ` set coll'
                \<subseteq> insert (storedKeys c ! i) (fst ` set coll) \<union> set (storedKeys c')"
              by (simp add: fst_set_put)
            also have "\<dots> \<subseteq> fst ` set coll \<union> set (storedKeys c)"
              using sub mem by auto
            finally show "fst ` set coll' \<subseteq> fst ` set coll \<union> set (storedKeys c)" .
          qed
          ultimately show ?thesis
            using i ex False gi Inr by (simp add: eq)
        qed
      qed
    qed
  qed
qed

lemma getStoredKeys_owned: "owned (c\<lparr>storedKeys := getStoredKeys w c\<rparr>)"
  by (simp add: owned_def getStoredKeys_def list_all_iff)

lemma getNamespaceKey_owned: "owned c \<Longrightarrow> prefix (namespace c @ ''_'') (getNamespaceKey c key)"
  by (auto simp: getNamespaceKey_def owned_def list_all_iff)

lemma setItem_owned:
  "owned c \<Longrightarrow> owned (snd (snd (setItem now w c key v)))
     \<and> namespace (snd (snd (setItem now w c key v))) = namespace c"
  using getNamespaceKey_owned [of c key]
  by (auto simp: setItem_def Let_def owned_def split: sum.splits)

lemma setItem_namespace: "namespace (snd (snd (setItem now w c key v))) = namespace c"
  by (auto simp: setItem_def Let_def split: sum.splits)

lemma set_expire_keys:
  "storedKeys (snd (set_expire v w c)) = storedKeys c
   \<and> namespace (snd (set_expire v w c)) = namespace c"
  by (simp add: set_expire_def Let_def split: prod.splits)

lemma getCollection_shrinks:
  "shrinks (c\<lparr>storedKeys := getStoredKeys w c\<rparr>) (snd (snd (getCollection now w c)))"
  using getCollection_loop_keys [of "c\<lparr>storedKeys := getStoredKeys w c\<rparr>" now 0 w "[]"]
  by (simp add: getCollection_def)

lemma size_of_state: "snd (size_of now w c) = snd (getCollection now w c)"
  by (simp add: size_of_def split: prod.splits sum.splits)

lemma perform_owned:
  assumes "perform now op w c = (w', c')"
  shows "namespace c' = namespace c \<and> (owned c \<longrightarrow> owned c')"
proof (cases op)
  case (SetItem key v)
  with assms setItem_owned [of c now w key v] setItem_namespace [of now w c key v]
  show ?thesis by auto
next
  case (GetItem key)
  with assms getItem_shrinks [of c now w key] show ?thesis
    by (auto dest: shrinks_owned shrinks_namespace)
next
  case (RemoveItem key)
  with assms removeItem_shrinks [of c w key] show ?thesis
    by (auto dest: shrinks_owned shrinks_namespace)
next
  case Clear
  with assms clear_shrinks [of c w] show ?thesis
    by (auto dest: shrinks_owned shrinks_namespace)
next
  case GetCollection
  with assms getCollection_shrinks [where c = c and w = w and now = now]
    getStoredKeys_owned [where c = c and w = w]
  show ?thesis by (auto dest: shrinks_owned shrinks_namespace)
next
  case Size
  with assms getCollection_shrinks [where c = c and w = w and now = now]
    getStoredKeys_owned [where c = c and w = w]
  show ?thesis by (auto simp: size_of_state dest: shrinks_owned shrinks_namespace)
next
  case RemoveExpired
  with assms removeExpired_loop_shrinks [of c now 0 w] show ?thesis
    by (auto simp: removeExpired_def dest: shrinks_owned shrinks_namespace)
next
  case (SetExpire v)
  with assms set_expire_keys [of v w c] show ?thesis
    by (auto simp: owned_def)
qed

lemma reachable_owned: "reachable c \<Longrightarrow> owned c"
proof (induction rule: reachable.induct)
  case (reachable_new w ns sel ttl w' c)
  define c0 where "c0 = \<lparr>storageType = (case sel of None \<Rightarrow> MEMORY | Some t \<Rightarrow> t),
     namespace = ns, storedKeys = [], expire = JUndefined, interval = HUndefined\<rparr>"
  define e where "e = (if ttl = JUndefined then JNum 3600000 else ttl)"
  have "c = snd (set_expire e w (c0\<lparr>storedKeys := getStoredKeys w c0\<rparr>))"
    using reachable_new by (simp add: new_CacheManager_def Let_def c0_def e_def)
  then have "storedKeys c = getStoredKeys w c0" and "namespace c = namespace c0"
    by (simp_all add: set_expire_keys)
  then show ?case
    by (simp add: owned_def getStoredKeys_def list_all_iff)
next
  case (reachable_step c now op w w' c')
  then show ?case using perform_owned by blast
qed



lemma reachable_users_cache: "reachable users_cache"
  using users_cache_new by (rule reachable_new)
section \<open>Key derivation\<close>







section \<open>Namespaces\<close>

text \<open>
  C5, as stated, fails: the namespaces \<open>a\<close> and \<open>a_b\<close> are distinct, and the key that the
  second instance writes starts with \<open>a_\<close>, so the collection of the first contains it.
\<close>

theorem namespace_prefix_leak:
  "reachable cache_a \<and> reachable cache_b \<and> namespace cache_a \<noteq> namespace cache_b
   \<and> fst (setItem 0 shared_world cache_b ''k'' (JNum 1)) = Inr ()
   \<and> fst (getCollection 0 (fst (snd (setItem 0 shared_world cache_b ''k'' (JNum 1)))) cache_a)
       = Inr [(getNamespaceKey cache_b ''k'', JNum 1)]"
proof -
  have "reachable cache_a"
    using cache_a_new by (rule reachable_new)
  moreover have "reachable cache_b"
    using cache_b_new by (rule reachable_new)
  moreover have "namespace cache_a \<noteq> namespace cache_b"
    by (simp add: scenario_defs)
  moreover have "fst (setItem 0 shared_world cache_b ''k'' (JNum 1)) = Inr ()"
    by (simp add: scenario_defs method_defs)
  moreover have
    "fst (getCollection 0 (fst (snd (setItem 0 shared_world cache_b ''k'' (JNum 1)))) cache_a)
       = Inr [(getNamespaceKey cache_b ''k'', JNum 1)]"
    by (simp add: getCollection_def getCollection_loop_done getCollection_loop_skip
        getCollection_loop_collect scenario_defs method_defs)
  ultimately show ?thesis by simp
qed

text \<open>
  C5, amended. When neither of the two prefixes (namespace and underscore) is a prefix of
  the other, no collection that the first instance ever returns, whatever the media
  hold, contains a storage key that the second instance writes to: \<open>setItem(key, v)\<close> of the
  second writes to \<open>getNamespaceKey b key\<close>.
\<close>

theorem namespace_isolation:
  assumes a: "reachable a" and b: "reachable b"
      and ab: "\<not> prefix (namespace a @ ''_'') (namespace b @ ''_'')"
      and ba: "\<not> prefix (namespace b @ ''_'') (namespace a @ ''_'')"
      and coll: "fst (getCollection now w a) = Inr collection"
  shows "getNamespaceKey b key \<notin> fst ` set collection"
proof
  assume "getNamespaceKey b key \<in> fst ` set collection"
  moreover have "fst ` set collection \<subseteq> set (getStoredKeys w a)"
    using getCollection_loop_keys [of "a\<lparr>storedKeys := getStoredKeys w a\<rparr>" now 0 w "[]"] coll
    by (simp add: getCollection_def)
  ultimately have "prefix (namespace a @ ''_'') (getNamespaceKey b key)"
    by (auto simp: getStoredKeys_def)
  moreover have "prefix (namespace b @ ''_'') (getNamespaceKey b key)"
    using reachable_owned [OF b] by (rule getNamespaceKey_owned)
  ultimately show False
    using ab ba prefix_same_cases by blast
qed

theorem namespace_isolation_witness:
  "reachable users_cache \<and> reachable cache_b
   \<and> \<not> prefix (namespace users_cache @ ''_'') (namespace cache_b @ ''_'')
   \<and> \<not> prefix (namespace cache_b @ ''_'') (namespace users_cache @ ''_'')
   \<and> fst (getCollection 500
            (fst (snd (setItem 0 (fst memory_alice) cache_b ''k'' (JNum 1)))) users_cache)
       = Inr [(alice_key, alice)]
   \<and> getNamespaceKey cache_b ''k'' \<notin> fst ` set [(alice_key, alice)]"
proof -
  have a: "reachable users_cache"
    by (rule reachable_users_cache)
  have b: "reachable cache_b"
    using cache_b_new by (rule reachable_new)
  have ab: "\<not> prefix (namespace users_cache @ ''_'') (namespace cache_b @ ''_'')"
    by (simp add: scenario_defs)
  have ba: "\<not> prefix (namespace cache_b @ ''_'') (namespace users_cache @ ''_'')"
    by (simp add: scenario_defs)
  have coll: "fst (getCollection 500
            (fst (snd (setItem 0 (fst memory_alice) cache_b ''k'' (JNum 1)))) users_cache)
       = Inr [(alice_key, alice)]"
    by (simp add: memory_alice_eq)
       (simp add: getCollection_def getCollection_loop_done getCollection_loop_skip
          getCollection_loop_collect scenario_defs method_defs)
  from namespace_isolation [OF a b ab ba coll, of "''k''"] a b ab ba coll
  show ?thesis by simp
qed

section \<open>Construction and the sweep timer\<close>










end
